theory Spec2Isabelle
  imports Complex_Main "HOL-Library.Char_ord" "HOL-Library.List_Lexorder"
    "HOL-Library.Product_Lexorder"
begin

section \<open>Shared address links: the graph builder (prep.py) and the filter (app.py)\<close>

text \<open>
  The repository has two scripts. \<^verbatim>\<open>prep.py\<close> reads a table of contributions, cleans the
  \<^verbatim>\<open>Amount\<close> column, keeps the addresses that at least \<^verbatim>\<open>N_MIN_AT_ADDRESS\<close> distinct
  contributors share and writes a table of nodes, a table of edges and a summary table.
  \<^verbatim>\<open>app.py\<close> reads the nodes and edges back and filters them by contributor type, by a
  minimum number of contributors per address and by a range of node amounts.

  Modelling decisions, all of them visible in the definitions below:
  \<^item> A data frame is a header (the column names that are present) and a list of rows. A
    cell of a text column is a \<open>string\<close> of characters with code points below 256;
    missing cells (pandas' NaN in a text column) are outside the model. A supplied
    \<^verbatim>\<open>group_id\<close> column holds integers.
  \<^item> The \<^verbatim>\<open>Amount\<close> column is read as text, cell by cell: a cell that \<^verbatim>\<open>read_csv\<close> takes
    for a missing value becomes \<^verbatim>\<open>nan\<close> under \<^verbatim>\<open>astype(str)\<close>, every other cell keeps its
    text. This is what pandas does when the column has a cell that is no number, no
    boolean word and no missing value, such as a cell with a \<^verbatim>\<open>$\<close> sign. A column of
    numbers only is printed back by \<^verbatim>\<open>astype(str)\<close> in another spelling of the same
    numbers; the model keeps the spelling of the file. The file is read in one piece.
  \<^item> A Python float is modelled by the exact rational it denotes, or one of the three
    special values, and addition is exact. Rounding to binary64, overflow and underflow
    are not modelled: the sums of the model are those of the code where no rounding
    occurs, for instance on whole amounts of moderate size (\<open>sums_exact\<close> below).
  \<^item> A raised exception is a value of type \<open>error\<close>, the left summand of the result.
  \<^item> The files a run writes are a map from file name to table.
\<close>

subsection \<open>Floats\<close>

datatype pyfloat = Fin rat | PInf | NInf | NaN

instantiation pyfloat :: comm_monoid_add
begin

definition zero_pyfloat :: pyfloat where
  "zero_pyfloat = Fin 0"

fun plus_pyfloat :: "pyfloat \<Rightarrow> pyfloat \<Rightarrow> pyfloat" where
  "plus_pyfloat (Fin a) (Fin b) = Fin (a + b)"
| "plus_pyfloat NaN y = NaN"
| "plus_pyfloat x NaN = NaN"
| "plus_pyfloat PInf NInf = NaN"
| "plus_pyfloat NInf PInf = NaN"
| "plus_pyfloat PInf y = PInf"
| "plus_pyfloat x PInf = PInf"
| "plus_pyfloat NInf y = NInf"
| "plus_pyfloat x NInf = NInf"

instance
proof
  fix x y z :: pyfloat
  show "0 + x = x"
    unfolding zero_pyfloat_def by (cases x; simp)
  show "x + y = y + x"
    by (cases x; cases y; simp)
  show "x + y + z = x + (y + z)"
    by (cases x; cases y; cases z; simp)
qed

end

text \<open>The comparison \<^verbatim>\<open><=\<close> of floats: false as soon as one side is NaN.\<close>

fun float_le :: "pyfloat \<Rightarrow> pyfloat \<Rightarrow> bool" where
  "float_le NaN y = False"
| "float_le x NaN = False"
| "float_le NInf y = True"
| "float_le x PInf = True"
| "float_le (Fin a) (Fin b) = (a \<le> b)"
| "float_le PInf y = False"
| "float_le x NInf = False"

definition float_gt :: "pyfloat \<Rightarrow> pyfloat \<Rightarrow> bool" where
  "float_gt x y = (x \<noteq> NaN \<and> y \<noteq> NaN \<and> \<not> float_le x y)"

text \<open>
  The aggregation \<^verbatim>\<open>"sum"\<close> of a pandas group: NaN entries are skipped, the others are
  added (an empty group sums to 0).
\<close>

definition pd_sum :: "pyfloat list \<Rightarrow> pyfloat" where
  "pd_sum xs = sum_list (filter (\<lambda>x. x \<noteq> NaN) xs)"

text \<open>\<^verbatim>\<open>Series.between(left, right)\<close>, inclusive on both sides.\<close>

definition between :: "pyfloat \<Rightarrow> pyfloat \<Rightarrow> pyfloat \<Rightarrow> bool" where
  "between x left right = (float_le left x \<and> float_le x right)"

text \<open>
  Amounts on which the binary64 sums of the code are exact: every amount is a whole
  number or missing, and the absolute values add up to less than \<open>2 ^ 53\<close>, so that
  every partial sum is an integer that binary64 represents.
\<close>

fun whole :: "pyfloat \<Rightarrow> bool" where
  "whole (Fin q) = (of_int \<lfloor>q\<rfloor> = q)"
| "whole NaN = True"
| "whole PInf = False"
| "whole NInf = False"

fun magnitude :: "pyfloat \<Rightarrow> rat" where
  "magnitude (Fin q) = \<bar>q\<bar>"
| "magnitude NaN = 0"
| "magnitude PInf = 0"
| "magnitude NInf = 0"

definition sums_exact :: "pyfloat list \<Rightarrow> bool" where
  "sums_exact xs = (list_all whole xs \<and> sum_list (map magnitude xs) < 2 ^ 53)"

subsection \<open>Python's conversions between text and numbers\<close>

definition is_digit :: "char \<Rightarrow> bool" where
  "is_digit c = (c \<in> set ''0123456789'')"

definition digit_val :: "char \<Rightarrow> nat" where
  "digit_val c = of_char c - 48"

definition digits_val :: "string \<Rightarrow> nat" where
  "digits_val ds = foldl (\<lambda>n c. 10 * n + digit_val c) 0 ds"

text \<open>
  What \<^verbatim>\<open>float(s)\<close> removes at both ends of a string: it first turns every white space
  character that is not ASCII into a blank (below 256 these are the code points 0x85
  and 0xA0), then strips the ASCII white space 0x09 to 0x0D and 0x20. The separators
  0x1C to 0x1F are ASCII and are not stripped.
\<close>

definition is_space :: "char \<Rightarrow> bool" where
  "is_space c = (c \<in> set [CHR 0x09, CHR 0x0A, CHR 0x0B, CHR 0x0C, CHR 0x0D, CHR 0x20,
     CHR 0x85, CHR 0xA0])"

definition strip :: "string \<Rightarrow> string" where
  "strip s = rev (dropWhile is_space (rev (dropWhile is_space s)))"

definition to_lower :: "char \<Rightarrow> char" where
  "to_lower c = (if CHR ''A'' \<le> c \<and> c \<le> CHR ''Z'' then char_of (of_char c + (32::nat)) else c)"

text \<open>
  The grammar of \<^verbatim>\<open>float(s)\<close> on a string:
  \<^verbatim>\<open>
  digitpart   ::= digit (["_"] digit)*
  number      ::= [digitpart] "." digitpart | digitpart ["."]
  exponent    ::= ("e" | "E") ["+" | "-"] digitpart
  floatvalue  ::= ["+" | "-"] (number [exponent] | "inf" | "infinity" | "nan")
  \<close>
  between optional white space, the three words in any case. \<open>scan_more\<close> reads the
  rest of a digitpart after its first digit and returns the digits and what follows.
\<close>

fun scan_more :: "string \<Rightarrow> string \<times> string" where
  "scan_more [] = ([], [])"
| "scan_more (c # cs) =
     (if is_digit c then (case scan_more cs of (ds, r) \<Rightarrow> (c # ds, r))
      else if c = CHR ''_'' then
        (case cs of
           [] \<Rightarrow> ([], c # cs)
         | d # cs' \<Rightarrow>
             if is_digit d then (case scan_more cs' of (ds, r) \<Rightarrow> (d # ds, r))
             else ([], c # cs))
      else ([], c # cs))"

definition digitpart :: "string \<Rightarrow> (string \<times> string) option" where
  "digitpart s =
     (case s of
        [] \<Rightarrow> None
      | c # cs \<Rightarrow>
          if is_digit c then (case scan_more cs of (ds, r) \<Rightarrow> Some (c # ds, r)) else None)"

definition number :: "string \<Rightarrow> (string \<times> string \<times> string) option" where
  "number s =
     (case digitpart s of
        Some (ip, r) \<Rightarrow>
          (case r of
             [] \<Rightarrow> Some (ip, [], [])
           | c # r' \<Rightarrow>
               if c = CHR ''.'' then
                 (case digitpart r' of
                    Some (fp, r'') \<Rightarrow> Some (ip, fp, r'')
                  | None \<Rightarrow> Some (ip, [], r'))
               else Some (ip, [], r))
      | None \<Rightarrow>
          (case s of
             [] \<Rightarrow> None
           | c # r' \<Rightarrow>
               if c = CHR ''.'' then
                 (case digitpart r' of
                    Some (fp, r'') \<Rightarrow> Some ([], fp, r'')
                  | None \<Rightarrow> None)
               else None))"

definition take_sign :: "string \<Rightarrow> bool \<times> string" where
  "take_sign s =
     (case s of
        [] \<Rightarrow> (False, s)
      | c # r \<Rightarrow>
          if c = CHR ''-'' then (True, r)
          else if c = CHR ''+'' then (False, r)
          else (False, s))"

definition exponent :: "string \<Rightarrow> (int \<times> string) option" where
  "exponent s =
     (case s of
        [] \<Rightarrow> Some (0, [])
      | c # r \<Rightarrow>
          if c = CHR ''e'' \<or> c = CHR ''E'' then
            (case take_sign r of
               (neg, r') \<Rightarrow>
                 (case digitpart r' of
                    Some (ds, r'') \<Rightarrow>
                      Some (if neg then - int (digits_val ds) else int (digits_val ds), r'')
                  | None \<Rightarrow> None))
          else Some (0, s))"

definition scale10 :: "rat \<Rightarrow> int \<Rightarrow> rat" where
  "scale10 q e = (if 0 \<le> e then q * 10 ^ nat e else q / 10 ^ nat (- e))"

definition floatnumber :: "string \<Rightarrow> rat option" where
  "floatnumber s =
     (case number s of
        None \<Rightarrow> None
      | Some (ip, fp, r) \<Rightarrow>
          (case exponent r of
             Some (e, []) \<Rightarrow>
               Some (scale10 (of_nat (digits_val ip) + of_nat (digits_val fp) / 10 ^ length fp) e)
           | _ \<Rightarrow> None))"

definition py_float :: "string \<Rightarrow> pyfloat option" where
  "py_float s =
     (case take_sign (strip s) of
        (neg, u) \<Rightarrow>
          if map to_lower u = ''inf'' \<or> map to_lower u = ''infinity''
          then Some (if neg then NInf else PInf)
          else if map to_lower u = ''nan'' then Some NaN
          else map_option (\<lambda>q. Fin (if neg then - q else q)) (floatnumber u))"

text \<open>\<^verbatim>\<open>str(i)\<close> of an integer.\<close>

definition digit_char :: "nat \<Rightarrow> char" where
  "digit_char d = char_of (48 + d)"

function show_nat :: "nat \<Rightarrow> string" where
  "show_nat n = (if n < 10 then [digit_char n] else show_nat (n div 10) @ [digit_char (n mod 10)])"
  by pat_completeness auto
termination
  by (relation "measure id") auto

declare show_nat.simps [simp del]

definition show_int :: "int \<Rightarrow> string" where
  "show_int i = (if i < 0 then CHR ''-'' # show_nat (nat (- i)) else show_nat (nat i))"

subsection \<open>Errors\<close>

text \<open>
  The exceptions the two scripts can raise. \<^verbatim>\<open>df["Amount"]\<close> on a frame without that
  column raises \<^verbatim>\<open>KeyError('Amount')\<close>; \<^verbatim>\<open>astype(float)\<close> raises
  \<^verbatim>\<open>ValueError("could not convert string to float: '...'")\<close>, which shows the text and
  nothing of its position; the check of the required columns raises
  \<^verbatim>\<open>ValueError(f"Missing required columns: {missing}")\<close>.
\<close>

datatype message =
    could_not_convert_string_to_float string
  | Missing_required_columns "string list"

datatype error = KeyError string | ValueError message

subsection \<open>pandas helpers\<close>

text \<open>\<^verbatim>\<open>Series.unique()\<close>: the distinct values in the order of their first occurrence.\<close>

definition unique :: "'a list \<Rightarrow> 'a list" where
  "unique xs = rev (remdups (rev xs))"

fun index_of :: "'a \<Rightarrow> 'a list \<Rightarrow> nat" where
  "index_of x [] = 0"
| "index_of x (y # ys) = (if x = y then 0 else Suc (index_of x ys))"

text \<open>
  \<^verbatim>\<open>pd.factorize(values)[0]\<close>: every value is replaced by the position of its first
  occurrence among the distinct values.
\<close>

definition factorize_code :: "'a list \<Rightarrow> 'a \<Rightarrow> int" where
  "factorize_code xs x = int (index_of x (unique xs))"

definition factorize :: "'a list \<Rightarrow> int list" where
  "factorize xs = map (factorize_code xs) xs"

text \<open>
  \<^verbatim>\<open>groupby(keys)\<close> sorts the distinct keys; every group holds the rows of one key, in
  the order of the frame.
\<close>

definition group_keys :: "('r \<Rightarrow> 'k::linorder) \<Rightarrow> 'r list \<Rightarrow> 'k list" where
  "group_keys key rs = sort (remdups (map key rs))"

definition group_rows :: "('r \<Rightarrow> 'k) \<Rightarrow> 'r list \<Rightarrow> 'k \<Rightarrow> 'r list" where
  "group_rows key rs k = filter (\<lambda>r. key r = k) rs"

text \<open>\<^verbatim>\<open>pd.Series(s.unique()).size\<close> and \<^verbatim>\<open>nunique\<close> on a column without missing cells.\<close>

definition nunique :: "'a list \<Rightarrow> int" where
  "nunique xs = int (length (unique xs))"

text \<open>\<^verbatim>\<open>astype(float)\<close> of a column of strings: the first text that is no float raises.\<close>

fun astype_float :: "string list \<Rightarrow> error + pyfloat list" where
  "astype_float [] = Inr []"
| "astype_float (s # ss) =
     (case py_float s of
        None \<Rightarrow> Inl (ValueError (could_not_convert_string_to_float s))
      | Some x \<Rightarrow>
          (case astype_float ss of
             Inl e \<Rightarrow> Inl e
           | Inr xs \<Rightarrow> Inr (x # xs)))"

subsection \<open>prep.py: the input frame\<close>

text \<open>
  A row of the input file. \<open>c_group_id\<close> is read only when the header has a
  \<^verbatim>\<open>group_id\<close> column, \<open>c_amount\<close> only when it has \<^verbatim>\<open>Amount\<close>, and so on: a field
  of a column that is absent carries no information. \<open>c_amount\<close> is the text of the
  cell in the file. A \<^verbatim>\<open>Date\<close> column is only coerced (\<^verbatim>\<open>errors="coerce"\<close> cannot fail)
  and never read again, so it is left out.
\<close>

record csv_row =
  c_name :: string
  c_type :: string
  c_address :: string
  c_amount :: string
  c_group_id :: int

record frame =
  columns :: "string list"
  rows :: "csv_row list"

text \<open>The frame after cleaning, with \<^verbatim>\<open>Amount\<close> a float and \<^verbatim>\<open>group_id\<close> set.\<close>

record rec =
  r_name :: string
  r_type :: string
  r_address :: string
  r_amount :: pyfloat
  r_gid :: int

text \<open>\<^verbatim>\<open>df_shared\<close> adds the two id columns.\<close>

record srec = rec +
  contrib_id :: string
  address_id :: string

record addr_stat =
  s_group_id :: int
  s_full_address :: string
  s_contributors :: int
  s_total_amount :: pyfloat
  s_tx_count :: int

record node =
  n_id :: string
  n_label :: string
  n_type :: string
  n_contrib_type :: "string option"
  n_total_amount :: pyfloat
  n_tx_count :: int

record edge =
  e_source :: string
  e_target :: string
  e_edge_type :: string
  e_address :: string
  e_tx_count :: int
  e_total_amount :: pyfloat

definition N_MIN_AT_ADDRESS :: int where
  "N_MIN_AT_ADDRESS = 2"

definition required :: "string list" where
  "required = [''Contributor Name'', ''Contributor Type'', ''full_address'']"

text \<open>
  Line 15: the cells that \<^verbatim>\<open>read_csv\<close> of pandas 2 takes for missing values by default.
  Such a cell is NaN in the frame, and \<^verbatim>\<open>astype(str)\<close> in line 19 prints it as \<^verbatim>\<open>nan\<close>.
\<close>

definition na_values :: "string list" where
  "na_values = [[], ''#N/A'', ''#N/A N/A'', ''#NA'', ''-1.#IND'', ''-1.#QNAN'', ''-NaN'',
     ''-nan'', ''1.#IND'', ''1.#QNAN'', ''<NA>'', ''N/A'', ''NA'', ''NULL'', ''NaN'', ''None'',
     ''n/a'', ''nan'', ''null'']"

definition read_cell :: "string \<Rightarrow> string" where
  "read_cell c = (if c \<in> set na_values then ''nan'' else c)"

text \<open>Lines 17 to 22: the two \<^verbatim>\<open>str.replace\<close> calls, then \<^verbatim>\<open>astype(float)\<close>.\<close>

definition clean_amount :: "string \<Rightarrow> string" where
  "clean_amount s = filter (\<lambda>c. c \<noteq> CHR '','') (filter (\<lambda>c. c \<noteq> CHR ''$'') s)"

definition cleaned_amounts :: "frame \<Rightarrow> string list" where
  "cleaned_amounts df = map (\<lambda>r. clean_amount (read_cell (c_amount r))) (rows df)"

definition amount_column :: "frame \<Rightarrow> error + pyfloat list" where
  "amount_column df =
     (if ''Amount'' \<in> set (columns df) then astype_float (cleaned_amounts df)
      else Inl (KeyError ''Amount''))"

definition missing :: "frame \<Rightarrow> string list" where
  "missing df = filter (\<lambda>c. c \<notin> set (columns df)) required"

definition mk_rec :: "csv_row \<Rightarrow> pyfloat \<Rightarrow> int \<Rightarrow> rec" where
  "mk_rec r a g =
     \<lparr>r_name = c_name r, r_type = c_type r, r_address = c_address r, r_amount = a, r_gid = g\<rparr>"

text \<open>
  Lines 16 to 41, in the order of the script: the amounts are cleaned first, then the
  required columns are checked, then the defaults are set and the group ids assigned.
\<close>

definition load :: "frame \<Rightarrow> error + rec list" where
  "load df =
     (case amount_column df of
        Inl e \<Rightarrow> Inl e
      | Inr amounts \<Rightarrow>
          if missing df \<noteq> [] then Inl (ValueError (Missing_required_columns (missing df)))
          else
            Inr (map (\<lambda>(r, a, g). mk_rec r a g)
              (zip (rows df)
                (zip (if ''Amount'' \<notin> set (columns df) then map (\<lambda>r. Fin 0) (rows df) else amounts)
                     (if ''group_id'' \<notin> set (columns df) then factorize (map c_address (rows df))
                      else map c_group_id (rows df))))))"

subsection \<open>prep.py: the graph\<close>

definition addr_stats :: "rec list \<Rightarrow> addr_stat list" where
  "addr_stats df =
     map (\<lambda>(g, a).
            \<lparr>s_group_id = g, s_full_address = a,
             s_contributors = nunique (map r_name (group_rows (\<lambda>r. (r_gid r, r_address r)) df (g, a))),
             s_total_amount = pd_sum (map r_amount (group_rows (\<lambda>r. (r_gid r, r_address r)) df (g, a))),
             s_tx_count = int (length (group_rows (\<lambda>r. (r_gid r, r_address r)) df (g, a)))\<rparr>)
         (group_keys (\<lambda>r. (r_gid r, r_address r)) df)"

definition shared_addr_ids :: "int \<Rightarrow> rec list \<Rightarrow> int set" where
  "shared_addr_ids n df = set (map s_group_id (filter (\<lambda>s. n \<le> s_contributors s) (addr_stats df)))"

definition mk_srec :: "rec \<Rightarrow> int \<Rightarrow> srec" where
  "mk_srec r c =
     \<lparr>r_name = r_name r, r_type = r_type r, r_address = r_address r, r_amount = r_amount r,
      r_gid = r_gid r, contrib_id = ''person:'' @ show_int c,
      address_id = ''addr:'' @ show_int (r_gid r)\<rparr>"

definition df_shared :: "int \<Rightarrow> rec list \<Rightarrow> srec list" where
  "df_shared n df =
     map (\<lambda>(r, c). mk_srec r c)
       (zip (filter (\<lambda>r. r_gid r \<in> shared_addr_ids n df) df)
            (factorize (map r_name (filter (\<lambda>r. r_gid r \<in> shared_addr_ids n df) df))))"

definition nodes_contrib :: "srec list \<Rightarrow> node list" where
  "nodes_contrib sh =
     map (\<lambda>k. case k of (cid, nm, ty) \<Rightarrow>
            \<lparr>n_id = cid, n_label = nm, n_type = ''contributor'', n_contrib_type = Some ty,
             n_total_amount = pd_sum (map r_amount (group_rows (\<lambda>r. (contrib_id r, r_name r, r_type r)) sh k)),
             n_tx_count = int (length (group_rows (\<lambda>r. (contrib_id r, r_name r, r_type r)) sh k))\<rparr>)
         (group_keys (\<lambda>r. (contrib_id r, r_name r, r_type r)) sh)"

definition nodes_addr :: "srec list \<Rightarrow> node list" where
  "nodes_addr sh =
     map (\<lambda>k. case k of (aid, a) \<Rightarrow>
            \<lparr>n_id = aid, n_label = a, n_type = ''address'', n_contrib_type = None,
             n_total_amount = pd_sum (map r_amount (group_rows (\<lambda>r. (address_id r, r_address r)) sh k)),
             n_tx_count = int (length (group_rows (\<lambda>r. (address_id r, r_address r)) sh k))\<rparr>)
         (group_keys (\<lambda>r. (address_id r, r_address r)) sh)"

definition nodes :: "srec list \<Rightarrow> node list" where
  "nodes sh = nodes_contrib sh @ nodes_addr sh"

definition edges :: "srec list \<Rightarrow> edge list" where
  "edges sh =
     map (\<lambda>k. case k of (cid, aid, a) \<Rightarrow>
            \<lparr>e_source = cid, e_target = aid, e_edge_type = ''at_address'', e_address = a,
             e_tx_count = int (length (group_rows (\<lambda>r. (contrib_id r, address_id r, r_address r)) sh k)),
             e_total_amount = pd_sum (map r_amount (group_rows (\<lambda>r. (contrib_id r, address_id r, r_address r)) sh k))\<rparr>)
         (group_keys (\<lambda>r. (contrib_id r, address_id r, r_address r)) sh)"

text \<open>
  \<^verbatim>\<open>sort_values(["contributors", "total_amount"], ascending=[False, False])\<close>: a stable
  sort, larger values first, NaN last.
\<close>

fun amount_rank :: "pyfloat \<Rightarrow> nat \<times> rat" where
  "amount_rank PInf = (0, 0)"
| "amount_rank (Fin q) = (1, - q)"
| "amount_rank NInf = (2, 0)"
| "amount_rank NaN = (3, 0)"

definition top_shared :: "int \<Rightarrow> rec list \<Rightarrow> addr_stat list" where
  "top_shared n df =
     sort_key (\<lambda>s. (- s_contributors s, amount_rank (s_total_amount s)))
       (filter (\<lambda>s. s_group_id s \<in> shared_addr_ids n df) (addr_stats df))"

definition build :: "int \<Rightarrow> frame \<Rightarrow> error + node list \<times> edge list \<times> addr_stat list" where
  "build n df =
     (case load df of
        Inl e \<Rightarrow> Inl e
      | Inr recs \<Rightarrow> Inr (nodes (df_shared n recs), edges (df_shared n recs), top_shared n recs))"

text \<open>
  The script as a whole: every \<^verbatim>\<open>to_csv\<close> comes after the last statement that can raise,
  so a run either raises and leaves the output directory as it was, or writes the three
  files.
\<close>

datatype table = Nodes "node list" | Edges "edge list" | Top_shared "addr_stat list"

type_synonym out_dir = "string \<Rightarrow> table option"

definition prep :: "int \<Rightarrow> frame \<Rightarrow> out_dir \<Rightarrow> out_dir \<times> error option" where
  "prep n df dir =
     (case build n df of
        Inl e \<Rightarrow> (dir, Some e)
      | Inr (ns, es, summary) \<Rightarrow>
          (dir(''nodes.csv'' \<mapsto> Nodes ns, ''edges.csv'' \<mapsto> Edges es,
               ''top_shared_addresses.csv'' \<mapsto> Top_shared summary), None))"

subsection \<open>app.py: the filter\<close>

record params =
  sel_types :: "string list"
  min_contribs :: int
  sel_amt :: "pyfloat \<times> pyfloat"

definition addr_contribs :: "edge list \<Rightarrow> (string \<times> int) list" where
  "addr_contribs es =
     map (\<lambda>t. (t, nunique (map e_source (group_rows e_target es t)))) (group_keys e_target es)"

definition addr_keep :: "params \<Rightarrow> edge list \<Rightarrow> string set" where
  "addr_keep p es = set (map fst (filter (\<lambda>(t, c). min_contribs p \<le> c) (addr_contribs es)))"

definition is_addr :: "node \<Rightarrow> bool" where
  "is_addr n = (n_type n = ''address'')"

definition is_person :: "node \<Rightarrow> bool" where
  "is_person n = (n_type n = ''contributor'')"

definition isin :: "string option \<Rightarrow> string list \<Rightarrow> bool" where
  "isin v vs = (case v of None \<Rightarrow> False | Some t \<Rightarrow> t \<in> set vs)"

definition persons_ok :: "params \<Rightarrow> node \<Rightarrow> bool" where
  "persons_ok p n =
     (if sel_types p \<noteq> [] then is_person n \<and> isin (n_contrib_type n) (sel_types p)
      else is_person n)"

definition nodes_f :: "params \<Rightarrow> node list \<Rightarrow> edge list \<Rightarrow> node list" where
  "nodes_f p ns es =
     filter (\<lambda>n. between (n_total_amount n) (fst (sel_amt p)) (snd (sel_amt p)))
       (filter (\<lambda>n. (is_addr n \<and> n_id n \<in> addr_keep p es) \<or> persons_ok p n) ns)"

definition keep_ids :: "params \<Rightarrow> node list \<Rightarrow> edge list \<Rightarrow> string set" where
  "keep_ids p ns es = set (map n_id (nodes_f p ns es))"

definition edges_f :: "params \<Rightarrow> node list \<Rightarrow> edge list \<Rightarrow> edge list" where
  "edges_f p ns es =
     filter (\<lambda>e. e_source e \<in> keep_ids p ns es \<and> e_target e \<in> keep_ids p ns es) es"

text \<open>
  The filtering section of the script has no statement that raises: whatever the
  parameters, it returns the two filtered tables.
\<close>

definition filter_engine :: "params \<Rightarrow> node list \<Rightarrow> edge list \<Rightarrow> error + node list \<times> edge list" where
  "filter_engine p ns es = Inr (nodes_f p ns es, edges_f p ns es)"

subsection \<open>The example of the specification\<close>

text \<open>
  Three contributions: Alice and Bob at \<^verbatim>\<open>1 Main St\<close>, Carol alone at \<^verbatim>\<open>2 Oak Ave\<close>.
  The file has no \<^verbatim>\<open>group_id\<close> column, so the field \<open>c_group_id\<close> is never read.
\<close>

definition example_records :: frame where
  "example_records =
     \<lparr>columns = [''Contributor Name'', ''Contributor Type'', ''full_address'', ''Amount''],
      rows =
        [\<lparr>c_name = ''Alice'', c_type = ''Individual'', c_address = ''1 Main St'',
          c_amount = ''$100'', c_group_id = 0\<rparr>,
         \<lparr>c_name = ''Bob'', c_type = ''Individual'', c_address = ''1 Main St'',
          c_amount = ''$50'', c_group_id = 0\<rparr>,
         \<lparr>c_name = ''Carol'', c_type = ''PAC'', c_address = ''2 Oak Ave'',
          c_amount = ''$200'', c_group_id = 0\<rparr>]\<rparr>"

definition alice :: node where
  "alice = \<lparr>n_id = ''person:0'', n_label = ''Alice'', n_type = ''contributor'',
     n_contrib_type = Some ''Individual'', n_total_amount = Fin 100, n_tx_count = 1\<rparr>"

definition bob :: node where
  "bob = \<lparr>n_id = ''person:1'', n_label = ''Bob'', n_type = ''contributor'',
     n_contrib_type = Some ''Individual'', n_total_amount = Fin 50, n_tx_count = 1\<rparr>"

definition main_st :: node where
  "main_st = \<lparr>n_id = ''addr:0'', n_label = ''1 Main St'', n_type = ''address'',
     n_contrib_type = None, n_total_amount = Fin 150, n_tx_count = 2\<rparr>"

definition example_nodes :: "node list" where
  "example_nodes = [alice, bob, main_st]"

definition alice_edge :: edge where
  "alice_edge = \<lparr>e_source = ''person:0'', e_target = ''addr:0'', e_edge_type = ''at_address'',
     e_address = ''1 Main St'', e_tx_count = 1, e_total_amount = Fin 100\<rparr>"

definition bob_edge :: edge where
  "bob_edge = \<lparr>e_source = ''person:1'', e_target = ''addr:0'', e_edge_type = ''at_address'',
     e_address = ''1 Main St'', e_tx_count = 1, e_total_amount = Fin 50\<rparr>"

definition example_edges :: "edge list" where
  "example_edges = [alice_edge, bob_edge]"

definition example_top_shared :: "addr_stat list" where
  "example_top_shared =
     [\<lparr>s_group_id = 0, s_full_address = ''1 Main St'', s_contributors = 2,
       s_total_amount = Fin 150, s_tx_count = 2\<rparr>]"

text \<open>Settings of the filter used on the example graph.\<close>

definition individuals_upto_100 :: params where
  "individuals_upto_100 =
     \<lparr>sel_types = [''Individual''], min_contribs = 2, sel_amt = (Fin 0, Fin 100)\<rparr>"

definition everything :: params where
  "everything = \<lparr>sel_types = [], min_contribs = 2, sel_amt = (Fin 0, Fin 200)\<rparr>"

definition inverted_range :: params where
  "inverted_range = \<lparr>sel_types = [], min_contribs = 2, sel_amt = (Fin 100, Fin 0)\<rparr>"

definition inverted_range_typed :: params where
  "inverted_range_typed =
     \<lparr>sel_types = [''Individual''], min_contribs = 2, sel_amt = (Fin 200, Fin 50)\<rparr>"

definition high_threshold :: params where
  "high_threshold =
     \<lparr>sel_types = [''Individual''], min_contribs = 3, sel_amt = (Fin 0, Fin 200)\<rparr>"

text \<open>The example after loading, and variants of the example file.\<close>

definition example_recs :: "rec list" where
  "example_recs =
     [\<lparr>r_name = ''Alice'', r_type = ''Individual'', r_address = ''1 Main St'',
       r_amount = Fin 100, r_gid = 0\<rparr>,
      \<lparr>r_name = ''Bob'', r_type = ''Individual'', r_address = ''1 Main St'',
       r_amount = Fin 50, r_gid = 0\<rparr>,
      \<lparr>r_name = ''Carol'', r_type = ''PAC'', r_address = ''2 Oak Ave'',
       r_amount = Fin 200, r_gid = 1\<rparr>]"

definition no_amount_column :: frame where
  "no_amount_column =
     \<lparr>columns = [''Contributor Name'', ''Contributor Type'', ''full_address''],
      rows = rows example_records\<rparr>"

definition no_type_column :: frame where
  "no_type_column =
     \<lparr>columns = [''Contributor Name'', ''full_address'', ''Amount''],
      rows = rows example_records\<rparr>"

definition alice_row :: "string \<Rightarrow> csv_row" where
  "alice_row a = \<lparr>c_name = ''Alice'', c_type = ''Individual'', c_address = ''1 Main St'',
     c_amount = a, c_group_id = 0\<rparr>"

definition bob_row :: "string \<Rightarrow> csv_row" where
  "bob_row a = \<lparr>c_name = ''Bob'', c_type = ''Individual'', c_address = ''1 Main St'',
     c_amount = a, c_group_id = 0\<rparr>"

definition abc_in_first_row :: frame where
  "abc_in_first_row =
     \<lparr>columns = columns example_records, rows = [alice_row ''abc'', bob_row ''$50'']\<rparr>"

definition abc_in_second_row :: frame where
  "abc_in_second_row =
     \<lparr>columns = columns example_records, rows = [alice_row ''$100'', bob_row ''abc'']\<rparr>"

definition bob_amount_na :: frame where
  "bob_amount_na =
     \<lparr>columns = columns example_records, rows = [alice_row ''$100'', bob_row ''N/A'']\<rparr>"

definition no_name_column :: frame where
  "no_name_column =
     \<lparr>columns = [''Contributor Type'', ''full_address'', ''Amount''],
      rows = [alice_row ''$100'', bob_row ''abc'']\<rparr>"

text \<open>Alice recorded once as an individual and once as a committee.\<close>

definition alice_two_types :: frame where
  "alice_two_types =
     \<lparr>columns = columns example_records,
      rows =
        [alice_row ''$100'',
         \<lparr>c_name = ''Alice'', c_type = ''PAC'', c_address = ''1 Main St'',
          c_amount = ''$50'', c_group_id = 0\<rparr>,
         bob_row ''$10'']\<rparr>"

section \<open>Properties\<close>

subsection \<open>The worked example of the graph builder\<close>

text \<open>
  Claim C1. On the three records of the example and with a minimum of two contributors
  per address, the builder keeps only \<^verbatim>\<open>1 Main St\<close>: the node table is exactly Alice, Bob
  and the address, the edge table is exactly the two edges into the address, each with
  a transaction count of 1, and the summary has the single address. Carol and
  \<^verbatim>\<open>2 Oak Ave\<close> are in none of the three tables.
\<close>

theorem build_example:
  "build 2 example_records = Inr (example_nodes, example_edges, example_top_shared)"
  by code_simp

subsection \<open>The filter\<close>

lemma persons_ok_is_person: "persons_ok p n \<Longrightarrow> is_person n"
  by (simp add: persons_ok_def split: if_splits)

lemma is_addr_not_person: "is_addr n \<Longrightarrow> \<not> is_person n"
  by (simp add: is_addr_def is_person_def)

lemma set_group_keys: "set (group_keys key rs) = key ` set rs"
  by (simp add: group_keys_def)

lemma distinct_group_keys: "distinct (group_keys key rs)"
  by (simp add: group_keys_def)

text \<open>
  Claim C2. Whatever the node table, the edge table and the settings, every edge of the
  filtered edge table has its source id and its target id among the ids of the filtered
  node table.
\<close>

theorem referential_closure:
  assumes "filter_engine p ns es = Inr (ns', es')" and "e \<in> set es'"
  shows "e_source e \<in> set (map n_id ns') \<and> e_target e \<in> set (map n_id ns')"
  using assms by (auto simp: filter_engine_def edges_f_def keep_ids_def)

theorem referential_closure_witness:
  "filter_engine everything example_nodes example_edges = Inr (example_nodes, example_edges)
   \<and> alice_edge \<in> set example_edges
   \<and> e_source alice_edge \<in> set (map n_id example_nodes)
   \<and> e_target alice_edge \<in> set (map n_id example_nodes)"
proof -
  have run: "filter_engine everything example_nodes example_edges = Inr (example_nodes, example_edges)"
    by code_simp
  have mem: "alice_edge \<in> set example_edges"
    by (simp add: example_edges_def)
  from referential_closure[OF run mem] run mem show ?thesis
    by simp
qed

text \<open>
  Claim C5, as the code has it. A node is in the filtered node table exactly when it is in
  the node table, its total amount lies in the selected range, and either it is a
  contributor whose type is selected (every type counts as selected when the selection
  is empty) or it is an address with enough contributors. So the type filter reads
  contributor nodes only, and the amount filter is applied to every node, addresses
  included.
\<close>

theorem nodes_f_membership:
  "n \<in> set (nodes_f p ns es) \<longleftrightarrow>
     n \<in> set ns
     \<and> between (n_total_amount n) (fst (sel_amt p)) (snd (sel_amt p))
     \<and> (if is_person n then sel_types p = [] \<or> isin (n_contrib_type n) (sel_types p)
        else is_addr n \<and> n_id n \<in> addr_keep p es)"
  using is_addr_not_person[of n]
  by (auto simp: nodes_f_def persons_ok_def)

text \<open>
  On the example graph with the types \<open>{Individual}\<close>, a minimum of 2 and the range
  \<open>(0, 100)\<close>, Alice and Bob stay and the address node, whose total is 150, is removed;
  no edge is left.
\<close>

theorem filter_example_drops_address:
  "filter_engine individuals_upto_100 example_nodes example_edges = Inr ([alice, bob], [])
   \<and> main_st \<notin> set [alice, bob]"
  by code_simp

lemma between_inverted: "float_gt lo hi \<Longrightarrow> \<not> between x lo hi"
  by (cases lo; cases hi; cases x) (auto simp: float_gt_def between_def)

text \<open>
  Claim C7, as the code has it. The filter validates nothing: with a range whose lower
  end is greater than its upper end no amount lies in the range, and the filter returns
  empty tables.
\<close>

theorem inverted_range_empty:
  assumes "float_gt (fst (sel_amt p)) (snd (sel_amt p))"
  shows "filter_engine p ns es = Inr ([], [])"
proof -
  have "nodes_f p ns es = []"
    unfolding nodes_f_def using between_inverted[OF assms] by simp
  then show ?thesis
    by (simp add: filter_engine_def edges_f_def keep_ids_def)
qed

theorem inverted_range_empty_witness:
  "float_gt (fst (sel_amt inverted_range)) (snd (sel_amt inverted_range))
   \<and> filter_engine inverted_range example_nodes example_edges = Inr ([], [])"
proof -
  have gt: "float_gt (fst (sel_amt inverted_range)) (snd (sel_amt inverted_range))"
    by (simp add: inverted_range_def float_gt_def)
  from inverted_range_empty[OF gt, of example_nodes example_edges] gt show ?thesis
    by simp
qed

theorem inverted_range_returns:
  "filter_engine inverted_range_typed example_nodes example_edges = Inr ([], [])"
  by code_simp

text \<open>
  A threshold above the number of distinct sources of every target removes every
  address node. When, moreover, no edge points to a contributor node, no edge is left
  either, and the filter returns the contributor nodes that pass the type and the
  amount filters.
\<close>

lemma high_threshold_bipartite:
  assumes high: "\<forall>t\<in>set (map e_target es).
                   nunique (map e_source (group_rows e_target es t)) < min_contribs p"
    and bip: "\<forall>e\<in>set es. \<forall>n\<in>set ns. n_id n = e_target e \<longrightarrow> \<not> is_person n"
  shows "filter_engine p ns es =
           Inr (filter (\<lambda>n. persons_ok p n
                  \<and> between (n_total_amount n) (fst (sel_amt p)) (snd (sel_amt p))) ns, [])
         \<and> filter is_addr (filter (\<lambda>n. persons_ok p n
                  \<and> between (n_total_amount n) (fst (sel_amt p)) (snd (sel_amt p))) ns) = []"
proof -
  have keep: "addr_keep p es = {}"
    using high by (auto simp: addr_keep_def addr_contribs_def set_group_keys)
  have ns: "nodes_f p ns es =
      filter (\<lambda>n. persons_ok p n
        \<and> between (n_total_amount n) (fst (sel_amt p)) (snd (sel_amt p))) ns"
    by (simp add: nodes_f_def keep)
  have "e_target e \<notin> keep_ids p ns es" if e: "e \<in> set es" for e
  proof
    assume "e_target e \<in> keep_ids p ns es"
    then obtain n where n: "n \<in> set ns" "persons_ok p n" "n_id n = e_target e"
      by (auto simp: keep_ids_def ns)
    from n(2) have "is_person n"
      by (rule persons_ok_is_person)
    with bip e n(1,3) show False
      by blast
  qed
  then have es: "edges_f p ns es = []"
    by (simp add: edges_f_def)
  have "\<not> is_addr n" if "persons_ok p n" for n
    using persons_ok_is_person[OF that] is_addr_not_person[of n] by blast
  then have "filter is_addr (filter (\<lambda>n. persons_ok p n
        \<and> between (n_total_amount n) (fst (sel_amt p)) (snd (sel_amt p))) ns) = []"
    by simp
  with ns es show ?thesis
    by (simp add: filter_engine_def)
qed

subsection \<open>The builder: threshold, amounts and required columns\<close>

text \<open>
  Claim C3. For every table of records and every two thresholds \<open>t1 \<le> t2\<close>, the group
  ids kept at \<open>t2\<close> are among those kept at \<open>t1\<close>.
\<close>

theorem threshold_monotone:
  assumes "t1 \<le> t2"
  shows "shared_addr_ids t2 df \<subseteq> shared_addr_ids t1 df"
  using assms by (auto simp: shared_addr_ids_def)

theorem threshold_monotone_witness:
  "shared_addr_ids 2 example_recs \<subseteq> shared_addr_ids 1 example_recs
   \<and> shared_addr_ids 2 example_recs = {0} \<and> shared_addr_ids 1 example_recs = {0, 1}"
proof -
  have "shared_addr_ids 2 example_recs = {0}" "shared_addr_ids 1 example_recs = {0, 1}"
    by code_simp+
  with threshold_monotone[of 1 2 example_recs] show ?thesis
    by simp
qed

lemma astype_float_find:
  "find (\<lambda>s. py_float s = None) ss = Some s \<Longrightarrow>
     astype_float ss = Inl (ValueError (could_not_convert_string_to_float s))"
  by (induction ss) (auto split: option.splits sum.splits)

lemma astype_float_ok:
  "list_all (\<lambda>s. py_float s \<noteq> None) ss \<Longrightarrow> \<exists>xs. astype_float ss = Inr xs"
  by (induction ss) (auto split: option.splits sum.splits)

lemma astype_float_bad:
  "\<not> list_all (\<lambda>s. py_float s \<noteq> None) ss \<Longrightarrow>
     \<exists>s. astype_float ss = Inl (ValueError (could_not_convert_string_to_float s))"
  by (induction ss) (auto split: option.splits sum.splits)

text \<open>
  Claim C4, as the code has it. Cleaning and conversion map \<^verbatim>\<open>$1,234.50\<close> to 1234.5 and
  \<^verbatim>\<open>$0\<close> to 0. The cell \<^verbatim>\<open>N/A\<close> is read as a missing value and becomes NaN, without
  an error. When the table has an \<^verbatim>\<open>Amount\<close> column with currency text (some cell has a
  \<^verbatim>\<open>$\<close> sign) and some cell, read and cleaned, is no float, the run raises
  \<^verbatim>\<open>ValueError\<close> with the message \<^verbatim>\<open>could not convert string to float\<close> followed by the
  first such text, and writes nothing. The error carries the text, not the row.
\<close>

theorem amount_normalization:
  "py_float (clean_amount (read_cell ''$1,234.50'')) = Some (Fin (2469 / 2))
   \<and> py_float (clean_amount (read_cell ''$0'')) = Some (Fin 0)
   \<and> py_float (clean_amount (read_cell ''N/A'')) = Some NaN
   \<and> (''Amount'' \<in> set (columns df)
        \<and> (\<exists>r\<in>set (rows df). CHR ''$'' \<in> set (c_amount r))
        \<and> find (\<lambda>s. py_float s = None) (cleaned_amounts df) = Some s
      \<longrightarrow> prep n df dir = (dir, Some (ValueError (could_not_convert_string_to_float s))))"
proof -
  have "py_float (clean_amount (read_cell ''$1,234.50'')) = Some (Fin (2469 / 2))"
    by code_simp
  moreover have "py_float (clean_amount (read_cell ''$0'')) = Some (Fin 0)"
    by code_simp
  moreover have "py_float (clean_amount (read_cell ''N/A'')) = Some NaN"
    by code_simp
  moreover have "prep n df dir = (dir, Some (ValueError (could_not_convert_string_to_float s)))"
    if "''Amount'' \<in> set (columns df)"
      and "find (\<lambda>s. py_float s = None) (cleaned_amounts df) = Some s"
    using that astype_float_find[of "cleaned_amounts df" s]
    by (simp add: prep_def build_def load_def amount_column_def)
  ultimately show ?thesis
    by blast
qed

theorem amount_normalization_witness:
  "''Amount'' \<in> set (columns abc_in_second_row)
   \<and> (\<exists>r\<in>set (rows abc_in_second_row). CHR ''$'' \<in> set (c_amount r))
   \<and> find (\<lambda>s. py_float s = None) (cleaned_amounts abc_in_second_row) = Some ''abc''
   \<and> prep 2 abc_in_second_row Map.empty
       = (Map.empty, Some (ValueError (could_not_convert_string_to_float ''abc'')))"
proof -
  have col: "''Amount'' \<in> set (columns abc_in_second_row)"
    by code_simp
  have cur: "\<exists>r\<in>set (rows abc_in_second_row). CHR ''$'' \<in> set (c_amount r)"
    by code_simp
  have bad: "find (\<lambda>s. py_float s = None) (cleaned_amounts abc_in_second_row) = Some ''abc''"
    by code_simp
  from amount_normalization[of abc_in_second_row "''abc''" 2 Map.empty] col cur bad
  show ?thesis
    by blast
qed

text \<open>
  A table whose second amount is \<^verbatim>\<open>N/A\<close> is built without an error: Bob's amount is
  missing and counts as nothing in the sums. The unparsable amount \<^verbatim>\<open>abc\<close> in the first
  row of one table and in the second row of another gives the same error: the row
  cannot be told from it.
\<close>

theorem na_builds_and_error_hides_row:
  "build 2 bob_amount_na =
     Inr ([alice,
           \<lparr>n_id = ''person:1'', n_label = ''Bob'', n_type = ''contributor'',
            n_contrib_type = Some ''Individual'', n_total_amount = Fin 0, n_tx_count = 1\<rparr>,
           \<lparr>n_id = ''addr:0'', n_label = ''1 Main St'', n_type = ''address'',
            n_contrib_type = None, n_total_amount = Fin 100, n_tx_count = 2\<rparr>],
          [alice_edge,
           \<lparr>e_source = ''person:1'', e_target = ''addr:0'', e_edge_type = ''at_address'',
            e_address = ''1 Main St'', e_tx_count = 1, e_total_amount = Fin 0\<rparr>],
          [\<lparr>s_group_id = 0, s_full_address = ''1 Main St'', s_contributors = 2,
            s_total_amount = Fin 100, s_tx_count = 2\<rparr>])
   \<and> build 2 abc_in_first_row = Inl (ValueError (could_not_convert_string_to_float ''abc''))
   \<and> build 2 abc_in_second_row = Inl (ValueError (could_not_convert_string_to_float ''abc''))"
  by code_simp

text \<open>
  Claim C6. The cleaning of \<^verbatim>\<open>Amount\<close> in line 17 reads the column before line 33 can
  supply the default: on a table without the column the run raises
  \<^verbatim>\<open>KeyError('Amount')\<close> and writes nothing.
\<close>

theorem no_amount_column_fails:
  assumes "''Amount'' \<notin> set (columns df)"
  shows "prep n df dir = (dir, Some (KeyError ''Amount''))"
  using assms by (simp add: prep_def build_def load_def amount_column_def)

theorem no_amount_column_fails_witness:
  "''Amount'' \<notin> set (columns no_amount_column)
   \<and> prep 2 no_amount_column Map.empty = (Map.empty, Some (KeyError ''Amount''))"
proof -
  have absent: "''Amount'' \<notin> set (columns no_amount_column)"
    by code_simp
  from no_amount_column_fails[OF absent, of 2 Map.empty] absent show ?thesis
    by simp
qed

text \<open>
  Claim C8, as the code has it. Let the table have an \<^verbatim>\<open>Amount\<close> column and lack a
  required column. Then the run raises and writes nothing. When every amount, read and
  cleaned, is a float, the error is \<^verbatim>\<open>ValueError\<close> with the message
  \<^verbatim>\<open>Missing required columns:\<close> and the list of all absent required columns;
  otherwise it is the \<^verbatim>\<open>ValueError\<close> of the conversion of the amounts, which comes
  first and does not name the column.
\<close>

theorem missing_required_column:
  assumes "c \<in> set required" and "c \<notin> set (columns df)"
    and "''Amount'' \<in> set (columns df)"
  shows "c \<in> set (missing df)
         \<and> fst (prep n df dir) = dir
         \<and> (if list_all (\<lambda>s. py_float s \<noteq> None) (cleaned_amounts df)
            then snd (prep n df dir)
                   = Some (ValueError (Missing_required_columns (missing df)))
            else \<exists>s. snd (prep n df dir)
                   = Some (ValueError (could_not_convert_string_to_float s)))"
proof -
  have m: "c \<in> set (missing df)"
    using assms(1,2) by (simp add: missing_def)
  then have ne: "missing df \<noteq> []"
    by auto
  show ?thesis
  proof (cases "list_all (\<lambda>s. py_float s \<noteq> None) (cleaned_amounts df)")
    case True
    then obtain xs where "astype_float (cleaned_amounts df) = Inr xs"
      using astype_float_ok by blast
    with True m ne assms(3) show ?thesis
      by (simp add: prep_def build_def load_def amount_column_def)
  next
    case False
    then obtain s where
      "astype_float (cleaned_amounts df) = Inl (ValueError (could_not_convert_string_to_float s))"
      using astype_float_bad by blast
    with False m assms(3) show ?thesis
      by (simp add: prep_def build_def load_def amount_column_def)
  qed
qed

theorem missing_required_column_witness:
  "''Contributor Type'' \<in> set (missing no_type_column)
   \<and> list_all (\<lambda>s. py_float s \<noteq> None) (cleaned_amounts no_type_column)
   \<and> prep 2 no_type_column Map.empty
       = (Map.empty, Some (ValueError (Missing_required_columns [''Contributor Type''])))"
proof -
  have req: "''Contributor Type'' \<in> set required"
    by code_simp
  have absent: "''Contributor Type'' \<notin> set (columns no_type_column)"
    by code_simp
  have amount: "''Amount'' \<in> set (columns no_type_column)"
    by code_simp
  have fine: "list_all (\<lambda>s. py_float s \<noteq> None) (cleaned_amounts no_type_column)"
    by code_simp
  have miss: "missing no_type_column = [''Contributor Type'']"
    by code_simp
  from missing_required_column[OF req absent amount, of 2 Map.empty] fine
  have "fst (prep 2 no_type_column Map.empty) = Map.empty"
    and "snd (prep 2 no_type_column Map.empty)
           = Some (ValueError (Missing_required_columns [''Contributor Type'']))"
    and "''Contributor Type'' \<in> set (missing no_type_column)"
    by (simp_all add: miss)
  with fine show ?thesis
    by (simp add: prod_eq_iff)
qed

text \<open>
  A table without the name column whose second amount is \<^verbatim>\<open>abc\<close>: the error is that of
  the conversion and says nothing of the missing column.
\<close>

theorem missing_column_not_named:
  "''Contributor Name'' \<in> set required
   \<and> ''Contributor Name'' \<notin> set (columns no_name_column)
   \<and> build 2 no_name_column = Inl (ValueError (could_not_convert_string_to_float ''abc''))"
  by code_simp

subsection \<open>Node aggregates against edge aggregates\<close>

text \<open>
  Summing a function over the groups of a \<^verbatim>\<open>groupby\<close> whose key has a given component
  is summing it over the rows with that component.
\<close>

lemma sum_list_delta_absent:
  fixes b :: "'a::comm_monoid_add"
  shows "a \<notin> set ks \<Longrightarrow> sum_list (map (\<lambda>k. if a = k then b else 0) ks) = 0"
  by (induction ks) auto

lemma sum_list_delta:
  fixes b :: "'a::comm_monoid_add"
  shows "distinct ks \<Longrightarrow> a \<in> set ks \<Longrightarrow> sum_list (map (\<lambda>k. if a = k then b else 0) ks) = b"
  by (induction ks) (auto simp: sum_list_delta_absent)

lemma sum_list_groups:
  fixes f :: "'r \<Rightarrow> 'a::comm_monoid_add"
  assumes "distinct ks" "key ` set rs \<subseteq> set ks"
  shows "sum_list (map (\<lambda>k. sum_list (map f (filter (\<lambda>r. key r = k) rs))) ks) = sum_list (map f rs)"
  using assms(2)
proof (induction rs)
  case Nil
  then show ?case by simp
next
  case (Cons r rs)
  have "sum_list (map (\<lambda>k. sum_list (map f (filter (\<lambda>r. key r = k) (r # rs)))) ks)
      = sum_list (map (\<lambda>k. (if key r = k then f r else 0) + sum_list (map f (filter (\<lambda>r. key r = k) rs))) ks)"
    by (intro arg_cong[where f = sum_list] map_cong) auto
  also have "\<dots> = sum_list (map (\<lambda>k. if key r = k then f r else 0) ks)
      + sum_list (map (\<lambda>k. sum_list (map f (filter (\<lambda>r. key r = k) rs))) ks)"
    by (simp add: sum_list_addf)
  also have "\<dots> = f r + sum_list (map f rs)"
    using Cons assms(1) by (simp add: sum_list_delta)
  finally show ?case by simp
qed

lemma pd_sum_skipna:
  "pd_sum (map f rs) = sum_list (map (\<lambda>r. if f r = NaN then 0 else f r) rs)"
  by (induction rs) (simp_all add: pd_sum_def)

lemma grouped_sum_by_component:
  fixes f :: "'r \<Rightarrow> 'a::comm_monoid_add"
  shows "sum_list (map (\<lambda>k. sum_list (map f (group_rows key sh k)))
            (filter (\<lambda>k. proj k = c) (group_keys key sh)))
       = sum_list (map f (filter (\<lambda>r. proj (key r) = c) sh))"
proof -
  let ?rs = "filter (\<lambda>r. proj (key r) = c) sh"
  let ?ks = "filter (\<lambda>k. proj k = c) (group_keys key sh)"
  have d: "distinct ?ks"
    by (simp add: distinct_group_keys)
  have sub: "key ` set ?rs \<subseteq> set ?ks"
    by (auto simp: set_group_keys)
  have "map (\<lambda>k. sum_list (map f (group_rows key sh k))) ?ks
      = map (\<lambda>k. sum_list (map f (filter (\<lambda>r. key r = k) ?rs))) ?ks"
  proof (rule map_cong[OF refl])
    fix k assume "k \<in> set ?ks"
    then have "proj k = c" by simp
    then have "filter (\<lambda>r. key r = k) ?rs = group_rows key sh k"
      unfolding group_rows_def filter_filter by (intro filter_cong) auto
    then show "sum_list (map f (group_rows key sh k)) = sum_list (map f (filter (\<lambda>r. key r = k) ?rs))"
      by simp
  qed
  then have "sum_list (map (\<lambda>k. sum_list (map f (group_rows key sh k))) ?ks)
      = sum_list (map (\<lambda>k. sum_list (map f (filter (\<lambda>r. key r = k) ?rs))) ?ks)"
    by (rule arg_cong)
  also have "\<dots> = sum_list (map f ?rs)"
    by (rule sum_list_groups[OF d sub])
  finally show ?thesis .
qed

lemma grouped_pd_sum:
  "sum_list (map (\<lambda>k. pd_sum (map g (group_rows key sh k)))
            (filter (\<lambda>k. proj k = c) (group_keys key sh)))
       = pd_sum (map g (filter (\<lambda>r. proj (key r) = c) sh))"
  unfolding pd_sum_skipna by (rule grouped_sum_by_component)

lemma grouped_length:
  "sum_list (map (\<lambda>k. int (length (group_rows key sh k)))
            (filter (\<lambda>k. proj k = c) (group_keys key sh)))
       = int (length (filter (\<lambda>r. proj (key r) = c) sh))"
  using grouped_sum_by_component[of "\<lambda>r. 1::int" key sh proj c]
  by (simp add: sum_list_triv)

text \<open>
  Hence the edges of one source carry, together, the amounts and the number of the rows of
  that contributor id, and likewise for the edges of one target.
\<close>

lemma edges_source_total:
  "sum_list (map e_total_amount (filter (\<lambda>e. e_source e = c) (edges sh)))
     = pd_sum (map r_amount (filter (\<lambda>r. contrib_id r = c) sh))"
proof -
  have "map e_total_amount (filter (\<lambda>e. e_source e = c) (edges sh))
      = map (\<lambda>k. pd_sum (map r_amount (group_rows (\<lambda>r. (contrib_id r, address_id r, r_address r)) sh k)))
          (filter (\<lambda>k. fst k = c) (group_keys (\<lambda>r. (contrib_id r, address_id r, r_address r)) sh))"
    unfolding edges_def filter_map map_map by (simp add: comp_def case_prod_beta)
  then show ?thesis
    by (simp only: grouped_pd_sum fst_conv)
qed

lemma edges_source_count:
  "sum_list (map e_tx_count (filter (\<lambda>e. e_source e = c) (edges sh)))
     = int (length (filter (\<lambda>r. contrib_id r = c) sh))"
proof -
  have "map e_tx_count (filter (\<lambda>e. e_source e = c) (edges sh))
      = map (\<lambda>k. int (length (group_rows (\<lambda>r. (contrib_id r, address_id r, r_address r)) sh k)))
          (filter (\<lambda>k. fst k = c) (group_keys (\<lambda>r. (contrib_id r, address_id r, r_address r)) sh))"
    unfolding edges_def filter_map map_map by (simp add: comp_def case_prod_beta)
  then show ?thesis
    by (simp only: grouped_length fst_conv)
qed

lemma edges_target_total:
  "sum_list (map e_total_amount (filter (\<lambda>e. e_target e = c) (edges sh)))
     = pd_sum (map r_amount (filter (\<lambda>r. address_id r = c) sh))"
proof -
  have "map e_total_amount (filter (\<lambda>e. e_target e = c) (edges sh))
      = map (\<lambda>k. pd_sum (map r_amount (group_rows (\<lambda>r. (contrib_id r, address_id r, r_address r)) sh k)))
          (filter (\<lambda>k. fst (snd k) = c) (group_keys (\<lambda>r. (contrib_id r, address_id r, r_address r)) sh))"
    unfolding edges_def filter_map map_map by (simp add: comp_def case_prod_beta)
  then show ?thesis
    by (simp only: grouped_pd_sum fst_conv snd_conv)
qed

lemma edges_target_count:
  "sum_list (map e_tx_count (filter (\<lambda>e. e_target e = c) (edges sh)))
     = int (length (filter (\<lambda>r. address_id r = c) sh))"
proof -
  have "map e_tx_count (filter (\<lambda>e. e_target e = c) (edges sh))
      = map (\<lambda>k. int (length (group_rows (\<lambda>r. (contrib_id r, address_id r, r_address r)) sh k)))
          (filter (\<lambda>k. fst (snd k) = c) (group_keys (\<lambda>r. (contrib_id r, address_id r, r_address r)) sh))"
    unfolding edges_def filter_map map_map by (simp add: comp_def case_prod_beta)
  then show ?thesis
    by (simp only: grouped_length fst_conv snd_conv)
qed

lemma contrib_group_rows:
  assumes dep: "\<And>r1 r2. r1 \<in> set sh \<Longrightarrow> r2 \<in> set sh \<Longrightarrow> contrib_id r1 = contrib_id r2 \<Longrightarrow>
                  r_name r1 = r_name r2 \<and> r_type r1 = r_type r2"
    and k: "k \<in> set (group_keys (\<lambda>r. (contrib_id r, r_name r, r_type r)) sh)"
  shows "group_rows (\<lambda>r. (contrib_id r, r_name r, r_type r)) sh k
           = filter (\<lambda>r. contrib_id r = fst k) sh"
proof -
  from k obtain r0 where r0: "r0 \<in> set sh" and keq: "k = (contrib_id r0, r_name r0, r_type r0)"
    unfolding set_group_keys by blast
  show ?thesis
    unfolding group_rows_def
  proof (rule filter_cong[OF refl])
    fix r assume r: "r \<in> set sh"
    show "((contrib_id r, r_name r, r_type r) = k) = (contrib_id r = fst k)"
    proof
      assume "(contrib_id r, r_name r, r_type r) = k"
      then show "contrib_id r = fst k" by (simp add: keq)
    next
      assume "contrib_id r = fst k"
      then have c: "contrib_id r = contrib_id r0" by (simp add: keq)
      from dep[OF r r0 c] c show "(contrib_id r, r_name r, r_type r) = k"
        by (simp add: keq)
    qed
  qed
qed

lemma addr_group_rows:
  assumes dep: "\<And>r1 r2. r1 \<in> set sh \<Longrightarrow> r2 \<in> set sh \<Longrightarrow> address_id r1 = address_id r2 \<Longrightarrow>
                  r_address r1 = r_address r2"
    and k: "k \<in> set (group_keys (\<lambda>r. (address_id r, r_address r)) sh)"
  shows "group_rows (\<lambda>r. (address_id r, r_address r)) sh k
           = filter (\<lambda>r. address_id r = fst k) sh"
proof -
  from k obtain r0 where r0: "r0 \<in> set sh" and keq: "k = (address_id r0, r_address r0)"
    unfolding set_group_keys by blast
  show ?thesis
    unfolding group_rows_def
  proof (rule filter_cong[OF refl])
    fix r assume r: "r \<in> set sh"
    show "((address_id r, r_address r) = k) = (address_id r = fst k)"
    proof
      assume "(address_id r, r_address r) = k"
      then show "address_id r = fst k" by (simp add: keq)
    next
      assume "address_id r = fst k"
      then have c: "address_id r = address_id r0" by (simp add: keq)
      from dep[OF r r0 c] c show "(address_id r, r_address r) = k"
        by (simp add: keq)
    qed
  qed
qed

lemma nodes_contrib_consistent:
  assumes dep: "\<And>r1 r2. r1 \<in> set sh \<Longrightarrow> r2 \<in> set sh \<Longrightarrow> contrib_id r1 = contrib_id r2 \<Longrightarrow>
                  r_name r1 = r_name r2 \<and> r_type r1 = r_type r2"
    and v: "v \<in> set (nodes_contrib sh)"
  shows "n_total_amount v = sum_list (map e_total_amount (filter (\<lambda>e. e_source e = n_id v) (edges sh)))
       \<and> n_tx_count v = sum_list (map e_tx_count (filter (\<lambda>e. e_source e = n_id v) (edges sh)))"
proof -
  let ?key = "\<lambda>r. (contrib_id r, r_name r, r_type r)"
  let ?F = "\<lambda>k. case k of (cid, nm, ty) \<Rightarrow>
            \<lparr>n_id = cid, n_label = nm, n_type = ''contributor'', n_contrib_type = Some ty,
             n_total_amount = pd_sum (map r_amount (group_rows ?key sh k)),
             n_tx_count = int (length (group_rows ?key sh k))\<rparr>"
  from v have "v \<in> ?F ` set (group_keys ?key sh)"
    unfolding nodes_contrib_def set_map .
  then obtain k where veq: "v = ?F k" and k: "k \<in> set (group_keys ?key sh)"
    by (rule imageE)
  have g: "group_rows ?key sh k = filter (\<lambda>r. contrib_id r = fst k) sh"
    using dep k by (rule contrib_group_rows)
  have "n_id v = fst k"
    and "n_total_amount v = pd_sum (map r_amount (filter (\<lambda>r. contrib_id r = fst k) sh))"
    and "n_tx_count v = int (length (filter (\<lambda>r. contrib_id r = fst k) sh))"
    unfolding veq g by (simp_all add: case_prod_beta)
  then show ?thesis
    by (simp only: edges_source_total edges_source_count)
qed

lemma nodes_addr_consistent:
  assumes dep: "\<And>r1 r2. r1 \<in> set sh \<Longrightarrow> r2 \<in> set sh \<Longrightarrow> address_id r1 = address_id r2 \<Longrightarrow>
                  r_address r1 = r_address r2"
    and v: "v \<in> set (nodes_addr sh)"
  shows "n_total_amount v = sum_list (map e_total_amount (filter (\<lambda>e. e_target e = n_id v) (edges sh)))
       \<and> n_tx_count v = sum_list (map e_tx_count (filter (\<lambda>e. e_target e = n_id v) (edges sh)))"
proof -
  let ?key = "\<lambda>r. (address_id r, r_address r)"
  let ?F = "\<lambda>k. case k of (aid, a) \<Rightarrow>
            \<lparr>n_id = aid, n_label = a, n_type = ''address'', n_contrib_type = None,
             n_total_amount = pd_sum (map r_amount (group_rows ?key sh k)),
             n_tx_count = int (length (group_rows ?key sh k))\<rparr>"
  from v have "v \<in> ?F ` set (group_keys ?key sh)"
    unfolding nodes_addr_def set_map .
  then obtain k where veq: "v = ?F k" and k: "k \<in> set (group_keys ?key sh)"
    by (rule imageE)
  have g: "group_rows ?key sh k = filter (\<lambda>r. address_id r = fst k) sh"
    using dep k by (rule addr_group_rows)
  have "n_id v = fst k"
    and "n_total_amount v = pd_sum (map r_amount (filter (\<lambda>r. address_id r = fst k) sh))"
    and "n_tx_count v = int (length (filter (\<lambda>r. address_id r = fst k) sh))"
    unfolding veq g by (simp_all add: case_prod_beta)
  then show ?thesis
    by (simp only: edges_target_total edges_target_count)
qed

lemma nodes_contrib_type: "v \<in> set (nodes_contrib sh) \<Longrightarrow> n_type v = ''contributor''"
  by (auto simp: nodes_contrib_def)

lemma nodes_addr_type: "v \<in> set (nodes_addr sh) \<Longrightarrow> n_type v = ''address''"
  by (auto simp: nodes_addr_def)

text \<open>
  The ids are injective: \<^verbatim>\<open>str\<close> of an integer determines the integer, and the code
  that \<^verbatim>\<open>factorize\<close> gives a value determines the value.
\<close>

lemma digit_val_digit_char: "d < 10 \<Longrightarrow> digit_val (digit_char d) = d"
  by (simp add: digit_val_def digit_char_def)

lemma digit_char_not_minus: "d < 10 \<Longrightarrow> digit_char d \<noteq> CHR ''-''"
proof
  assume d: "d < 10" and "digit_char d = CHR ''-''"
  then have "of_char (digit_char d) = (of_char (CHR ''-'') :: nat)"
    by simp
  with d show False
    by (simp add: digit_char_def)
qed

lemma digits_val_snoc: "digits_val (ds @ [c]) = 10 * digits_val ds + digit_val c"
  by (simp add: digits_val_def)

lemma digits_val_show_nat: "digits_val (show_nat n) = n"
proof (induction n rule: show_nat.induct)
  case (1 n)
  show ?case
  proof (cases "n < 10")
    case True
    then have "show_nat n = [digit_char n]"
      by (subst show_nat.simps) simp
    with True show ?thesis
      by (simp add: digits_val_def digit_val_digit_char)
  next
    case False
    then have "show_nat n = show_nat (n div 10) @ [digit_char (n mod 10)]"
      by (subst show_nat.simps) simp
    with False 1 show ?thesis
      by (simp add: digits_val_snoc digit_val_digit_char)
  qed
qed

lemma show_nat_no_minus: "CHR ''-'' \<notin> set (show_nat n)"
proof (induction n rule: show_nat.induct)
  case (1 n)
  show ?case
  proof (cases "n < 10")
    case True
    then have "show_nat n = [digit_char n]"
      by (subst show_nat.simps) simp
    then have "set (show_nat n) = {digit_char n}"
      by simp
    with digit_char_not_minus[OF True] show ?thesis
      by simp
  next
    case False
    then have "show_nat n = show_nat (n div 10) @ [digit_char (n mod 10)]"
      by (subst show_nat.simps) simp
    then have "set (show_nat n) = set (show_nat (n div 10)) \<union> {digit_char (n mod 10)}"
      by simp
    moreover have "CHR ''-'' \<notin> set (show_nat (n div 10))"
      using False by (rule 1)
    moreover have "digit_char (n mod 10) \<noteq> CHR ''-''"
      by (rule digit_char_not_minus) simp
    ultimately show ?thesis
      by simp
  qed
qed

lemma show_nat_inj:
  assumes "show_nat m = show_nat n"
  shows "m = n"
proof -
  have "m = digits_val (show_nat m)"
    by (simp only: digits_val_show_nat)
  also have "\<dots> = digits_val (show_nat n)"
    by (simp only: assms)
  also have "\<dots> = n"
    by (simp only: digits_val_show_nat)
  finally show ?thesis .
qed

lemma show_int_inj:
  assumes eq: "show_int i = show_int j"
  shows "i = j"
proof -
  have pos_neg: False if a: "0 \<le> a" and b: "b < 0" and ab: "show_int a = show_int b" for a b
  proof -
    from a have "show_int a = show_nat (nat a)"
      by (simp add: show_int_def)
    moreover from b have "show_int b = CHR ''-'' # show_nat (nat (- b))"
      by (simp add: show_int_def)
    ultimately have "show_nat (nat a) = CHR ''-'' # show_nat (nat (- b))"
      using ab by (simp only:)
    then have "set (show_nat (nat a)) = set (CHR ''-'' # show_nat (nat (- b)))"
      by (rule arg_cong)
    then have "CHR ''-'' \<in> set (show_nat (nat a))"
      by simp
    with show_nat_no_minus show False
      by blast
  qed
  consider "0 \<le> i" "0 \<le> j" | "i < 0" "j < 0" | "0 \<le> i" "j < 0" | "i < 0" "0 \<le> j"
    by linarith
  then show ?thesis
  proof cases
    case 1
    then have "show_int i = show_nat (nat i)" "show_int j = show_nat (nat j)"
      by (simp_all add: show_int_def)
    with eq have "show_nat (nat i) = show_nat (nat j)"
      by (simp only:)
    then have "nat i = nat j"
      by (rule show_nat_inj)
    with 1 show ?thesis by linarith
  next
    case 2
    then have "show_int i = CHR ''-'' # show_nat (nat (- i))"
      "show_int j = CHR ''-'' # show_nat (nat (- j))"
      by (simp_all add: show_int_def)
    with eq have "CHR ''-'' # show_nat (nat (- i)) = CHR ''-'' # show_nat (nat (- j))"
      by (simp only:)
    then have "show_nat (nat (- i)) = show_nat (nat (- j))"
      by (simp only: list.inject)
    then have "nat (- i) = nat (- j)"
      by (rule show_nat_inj)
    with 2 show ?thesis by linarith
  next
    case 3
    from pos_neg[OF 3 eq] show ?thesis ..
  next
    case 4
    from pos_neg[OF 4(2) 4(1) eq[symmetric]] show ?thesis ..
  qed
qed

lemma index_of_inj:
  "x \<in> set xs \<Longrightarrow> y \<in> set xs \<Longrightarrow> index_of x xs = index_of y xs \<Longrightarrow> x = y"
  by (induction xs) (auto split: if_splits)

lemma set_unique: "set (unique xs) = set xs"
  by (simp add: unique_def)

lemma factorize_code_inj:
  "x \<in> set xs \<Longrightarrow> y \<in> set xs \<Longrightarrow> factorize_code xs x = factorize_code xs y \<Longrightarrow> x = y"
  unfolding factorize_code_def using index_of_inj[of x "unique xs" y]
  by (simp add: set_unique)

lemma zip_map_self: "zip xs (map f xs) = map (\<lambda>x. (x, f x)) xs"
  by (induction xs) simp_all

lemma zip3_mem:
  "(r, a, g) \<in> set (zip rs (zip as (map G rs))) \<Longrightarrow> r \<in> set rs \<and> g = G r"
proof (induction rs arbitrary: as)
  case Nil
  then show ?case by simp
next
  case (Cons x xs)
  then show ?case
    by (cases as) auto
qed

text \<open>
  Every loaded record comes from a row of the input, and every record of \<^verbatim>\<open>df_shared\<close>
  from a loaded record.
\<close>

lemma load_rows:
  assumes ld: "load df = Inr recs" and x: "x \<in> set recs"
  shows "\<exists>r\<in>set (rows df). r_name x = c_name r \<and> r_type x = c_type r
           \<and> r_address x = c_address r
           \<and> r_gid x = (if ''group_id'' \<notin> set (columns df)
                         then factorize_code (map c_address (rows df)) (c_address r)
                         else c_group_id r)"
proof -
  define G where "G = (\<lambda>r::csv_row. if ''group_id'' \<notin> set (columns df)
                         then factorize_code (map c_address (rows df)) (c_address r)
                         else c_group_id r)"
  have gids: "(if ''group_id'' \<notin> set (columns df) then factorize (map c_address (rows df))
               else map c_group_id (rows df)) = map G (rows df)"
    by (simp add: G_def factorize_def)
  from ld obtain amounts where am: "amount_column df = Inr amounts"
    by (cases "amount_column df") (simp_all add: load_def)
  define A where "A = (if ''Amount'' \<notin> set (columns df) then map (\<lambda>r. Fin 0) (rows df)
                       else amounts)"
  have "load df = (if missing df \<noteq> [] then Inl (ValueError (Missing_required_columns (missing df)))
                   else Inr (map (\<lambda>(r, a, g). mk_rec r a g)
                          (zip (rows df) (zip A (map G (rows df))))))"
    unfolding load_def gids A_def by (simp add: am)
  with ld have recs:
    "recs = map (\<lambda>(r, a, g). mk_rec r a g) (zip (rows df) (zip A (map G (rows df))))"
    by (simp split: if_splits)
  from x obtain r a g where mem: "(r, a, g) \<in> set (zip (rows df) (zip A (map G (rows df))))"
    and xeq: "x = mk_rec r a g"
    unfolding recs by auto
  from zip3_mem[OF mem] have "r \<in> set (rows df)" and "g = G r"
    by simp_all
  then show ?thesis
    unfolding xeq by (intro bexI[of _ r]) (simp_all add: mk_rec_def G_def)
qed

lemma df_shared_rows:
  assumes s: "s \<in> set (df_shared n recs)"
  shows "\<exists>x\<in>set recs. r_name s = r_name x \<and> r_type s = r_type x \<and> r_address s = r_address x
           \<and> r_gid s = r_gid x
           \<and> r_name x \<in> set (map r_name (filter (\<lambda>r. r_gid r \<in> shared_addr_ids n recs) recs))
           \<and> contrib_id s = ''person:'' @ show_int (factorize_code
                 (map r_name (filter (\<lambda>r. r_gid r \<in> shared_addr_ids n recs) recs)) (r_name x))
           \<and> address_id s = ''addr:'' @ show_int (r_gid x)"
proof -
  let ?kept = "filter (\<lambda>r. r_gid r \<in> shared_addr_ids n recs) recs"
  let ?names = "map r_name ?kept"
  have "factorize ?names = map (\<lambda>r. factorize_code ?names (r_name r)) ?kept"
    by (simp add: factorize_def)
  then have "df_shared n recs = map (\<lambda>r. mk_srec r (factorize_code ?names (r_name r))) ?kept"
    unfolding df_shared_def by (simp only: zip_map_self map_map comp_def prod.case)
  with s obtain x where xk: "x \<in> set ?kept" and seq: "s = mk_srec x (factorize_code ?names (r_name x))"
    by auto
  from xk have "x \<in> set recs" and "r_name x \<in> set ?names"
    by simp_all
  then show ?thesis
    unfolding seq by (intro bexI[of _ x]) (simp_all add: mk_srec_def)
qed

lemma contrib_id_determines:
  assumes ld: "load df = Inr recs"
    and types: "\<forall>r1\<in>set (rows df). \<forall>r2\<in>set (rows df). c_name r1 = c_name r2 \<longrightarrow> c_type r1 = c_type r2"
    and s1: "s1 \<in> set (df_shared n recs)" and s2: "s2 \<in> set (df_shared n recs)"
    and eq: "contrib_id s1 = contrib_id s2"
  shows "r_name s1 = r_name s2 \<and> r_type s1 = r_type s2"
proof -
  let ?names = "map r_name (filter (\<lambda>r. r_gid r \<in> shared_addr_ids n recs) recs)"
  from df_shared_rows[OF s1] obtain x1 where x1: "x1 \<in> set recs" "r_name s1 = r_name x1"
    "r_type s1 = r_type x1" "r_name x1 \<in> set ?names"
    "contrib_id s1 = ''person:'' @ show_int (factorize_code ?names (r_name x1))"
    by blast
  from df_shared_rows[OF s2] obtain x2 where x2: "x2 \<in> set recs" "r_name s2 = r_name x2"
    "r_type s2 = r_type x2" "r_name x2 \<in> set ?names"
    "contrib_id s2 = ''person:'' @ show_int (factorize_code ?names (r_name x2))"
    by blast
  from eq x1(5) x2(5)
  have "show_int (factorize_code ?names (r_name x1)) = show_int (factorize_code ?names (r_name x2))"
    by simp
  then have "factorize_code ?names (r_name x1) = factorize_code ?names (r_name x2)"
    by (rule show_int_inj)
  with x1(4) x2(4) have names: "r_name x1 = r_name x2"
    by (rule factorize_code_inj)
  from load_rows[OF ld x1(1)] obtain r1 where r1: "r1 \<in> set (rows df)" "r_name x1 = c_name r1"
    "r_type x1 = c_type r1"
    by blast
  from load_rows[OF ld x2(1)] obtain r2 where r2: "r2 \<in> set (rows df)" "r_name x2 = c_name r2"
    "r_type x2 = c_type r2"
    by blast
  from names r1(2) r2(2) have "c_name r1 = c_name r2"
    by simp
  with types r1(1) r2(1) have "c_type r1 = c_type r2"
    by blast
  with names x1 x2 r1 r2 show ?thesis
    by simp
qed

lemma address_id_determines:
  assumes ld: "load df = Inr recs"
    and groups: "''group_id'' \<in> set (columns df) \<longrightarrow>
       (\<forall>r1\<in>set (rows df). \<forall>r2\<in>set (rows df). c_group_id r1 = c_group_id r2 \<longrightarrow> c_address r1 = c_address r2)"
    and s1: "s1 \<in> set (df_shared n recs)" and s2: "s2 \<in> set (df_shared n recs)"
    and eq: "address_id s1 = address_id s2"
  shows "r_address s1 = r_address s2"
proof -
  from df_shared_rows[OF s1] obtain x1 where x1: "x1 \<in> set recs" "r_address s1 = r_address x1"
    "address_id s1 = ''addr:'' @ show_int (r_gid x1)"
    by blast
  from df_shared_rows[OF s2] obtain x2 where x2: "x2 \<in> set recs" "r_address s2 = r_address x2"
    "address_id s2 = ''addr:'' @ show_int (r_gid x2)"
    by blast
  from eq x1(3) x2(3) have "show_int (r_gid x1) = show_int (r_gid x2)"
    by simp
  then have gid: "r_gid x1 = r_gid x2"
    by (rule show_int_inj)
  from load_rows[OF ld x1(1)] obtain r1 where r1_mem: "r1 \<in> set (rows df)"
    and r1_all: "r_name x1 = c_name r1 \<and> r_type x1 = c_type r1
           \<and> r_address x1 = c_address r1
           \<and> r_gid x1 = (if ''group_id'' \<notin> set (columns df)
                         then factorize_code (map c_address (rows df)) (c_address r1)
                         else c_group_id r1)"
    by (rule bexE)
  from load_rows[OF ld x2(1)] obtain r2 where r2_mem: "r2 \<in> set (rows df)"
    and r2_all: "r_name x2 = c_name r2 \<and> r_type x2 = c_type r2
           \<and> r_address x2 = c_address r2
           \<and> r_gid x2 = (if ''group_id'' \<notin> set (columns df)
                         then factorize_code (map c_address (rows df)) (c_address r2)
                         else c_group_id r2)"
    by (rule bexE)
  have "c_address r1 = c_address r2"
  proof (cases "''group_id'' \<in> set (columns df)")
    case True
    with r1_all r2_all have "r_gid x1 = c_group_id r1" "r_gid x2 = c_group_id r2"
      by simp_all
    with gid have same: "c_group_id r1 = c_group_id r2"
      by simp
    from groups True have "\<forall>r1\<in>set (rows df). \<forall>r2\<in>set (rows df).
        c_group_id r1 = c_group_id r2 \<longrightarrow> c_address r1 = c_address r2"
      by (rule mp)
    from this r1_mem have "\<forall>r2\<in>set (rows df).
        c_group_id r1 = c_group_id r2 \<longrightarrow> c_address r1 = c_address r2"
      by (rule bspec)
    from this r2_mem have "c_group_id r1 = c_group_id r2 \<longrightarrow> c_address r1 = c_address r2"
      by (rule bspec)
    from this same show ?thesis
      by (rule mp)
  next
    case False
    with r1_all r2_all
    have "r_gid x1 = factorize_code (map c_address (rows df)) (c_address r1)"
      "r_gid x2 = factorize_code (map c_address (rows df)) (c_address r2)"
      by simp_all
    with gid
    have same: "factorize_code (map c_address (rows df)) (c_address r1)
        = factorize_code (map c_address (rows df)) (c_address r2)"
      by simp
    from r1_mem have m1: "c_address r1 \<in> set (map c_address (rows df))"
      by simp
    from r2_mem have m2: "c_address r2 \<in> set (map c_address (rows df))"
      by simp
    from m1 m2 same show ?thesis
      by (rule factorize_code_inj)
  qed
  moreover from r1_all have "r_address x1 = c_address r1"
    by simp
  moreover from r2_all have "r_address x2 = c_address r2"
    by simp
  ultimately show ?thesis
    using x1(2) x2(2) by simp
qed

text \<open>
  In the model, where sums are exact: when every contributor name has one type and
  every supplied group id one address, the aggregates of a node are the sums of the
  aggregates of its edges.
\<close>

lemma node_aggregates_model:
  assumes run: "build n df = Inr (ns, es, summary)"
    and types: "\<forall>r1\<in>set (rows df). \<forall>r2\<in>set (rows df).
                  c_name r1 = c_name r2 \<longrightarrow> c_type r1 = c_type r2"
    and groups: "''group_id'' \<in> set (columns df) \<longrightarrow>
       (\<forall>r1\<in>set (rows df). \<forall>r2\<in>set (rows df).
          c_group_id r1 = c_group_id r2 \<longrightarrow> c_address r1 = c_address r2)"
    and v: "v \<in> set ns"
  shows "(is_person v \<or> is_addr v)
       \<and> (is_person v \<longrightarrow>
            n_total_amount v = sum_list (map e_total_amount (filter (\<lambda>e. e_source e = n_id v) es))
          \<and> n_tx_count v = sum_list (map e_tx_count (filter (\<lambda>e. e_source e = n_id v) es)))
       \<and> (is_addr v \<longrightarrow>
            n_total_amount v = sum_list (map e_total_amount (filter (\<lambda>e. e_target e = n_id v) es))
          \<and> n_tx_count v = sum_list (map e_tx_count (filter (\<lambda>e. e_target e = n_id v) es)))"
proof -
  from run obtain recs where ld: "load df = Inr recs"
    and ns: "ns = nodes (df_shared n recs)" and es: "es = edges (df_shared n recs)"
    by (cases "load df") (simp_all add: build_def)
  let ?sh = "df_shared n recs"
  from v consider "v \<in> set (nodes_contrib ?sh)" | "v \<in> set (nodes_addr ?sh)"
    unfolding ns nodes_def by auto
  then show ?thesis
  proof cases
    case 1
    then have ty: "n_type v = ''contributor''"
      by (rule nodes_contrib_type)
    have "n_total_amount v = sum_list (map e_total_amount (filter (\<lambda>e. e_source e = n_id v) (edges ?sh)))
       \<and> n_tx_count v = sum_list (map e_tx_count (filter (\<lambda>e. e_source e = n_id v) (edges ?sh)))"
      using contrib_id_determines[OF ld types] 1 by (rule nodes_contrib_consistent)
    with ty show ?thesis
      unfolding es by (simp add: is_person_def is_addr_def)
  next
    case 2
    then have ty: "n_type v = ''address''"
      by (rule nodes_addr_type)
    have "n_total_amount v = sum_list (map e_total_amount (filter (\<lambda>e. e_target e = n_id v) (edges ?sh)))
       \<and> n_tx_count v = sum_list (map e_tx_count (filter (\<lambda>e. e_target e = n_id v) (edges ?sh)))"
      using address_id_determines[OF ld groups] 2 by (rule nodes_addr_consistent)
    with ty show ?thesis
      unfolding es by (simp add: is_person_def is_addr_def)
  qed
qed

text \<open>
  Claim C10, as the code has it. Let every contributor name have one contributor type
  in the input and, when the input has a \<^verbatim>\<open>group_id\<close> column, every group id one
  address. Then every node of the node table is a contributor or an address, and its
  transaction count is the sum of the counts of the edges whose source (for a
  contributor) or target (for an address) is its id. The same holds of the total
  amounts when the amounts are such that the floating point sums are exact: whole
  numbers or missing, with absolute values adding up to less than \<open>2 ^ 53\<close>.
\<close>

theorem node_totals_consistent:
  assumes run: "build n df = Inr (ns, es, summary)"
    and amounts: "amount_column df = Inr amounts"
    and types: "\<forall>r1\<in>set (rows df). \<forall>r2\<in>set (rows df).
                  c_name r1 = c_name r2 \<longrightarrow> c_type r1 = c_type r2"
    and groups: "''group_id'' \<in> set (columns df) \<longrightarrow>
       (\<forall>r1\<in>set (rows df). \<forall>r2\<in>set (rows df).
          c_group_id r1 = c_group_id r2 \<longrightarrow> c_address r1 = c_address r2)"
    and v: "v \<in> set ns"
  shows "(is_person v \<or> is_addr v)
       \<and> (is_person v \<longrightarrow>
            n_tx_count v = sum_list (map e_tx_count (filter (\<lambda>e. e_source e = n_id v) es)))
       \<and> (is_addr v \<longrightarrow>
            n_tx_count v = sum_list (map e_tx_count (filter (\<lambda>e. e_target e = n_id v) es)))
       \<and> (sums_exact amounts \<longrightarrow>
            (is_person v \<longrightarrow> n_total_amount v
               = sum_list (map e_total_amount (filter (\<lambda>e. e_source e = n_id v) es)))
          \<and> (is_addr v \<longrightarrow> n_total_amount v
               = sum_list (map e_total_amount (filter (\<lambda>e. e_target e = n_id v) es))))"
  using node_aggregates_model[OF run types groups v] by blast

theorem node_totals_consistent_witness:
  "build 2 example_records = Inr (example_nodes, example_edges, example_top_shared)
   \<and> amount_column example_records = Inr [Fin 100, Fin 50, Fin 200]
   \<and> sums_exact [Fin 100, Fin 50, Fin 200]
   \<and> alice \<in> set example_nodes \<and> is_person alice
   \<and> n_total_amount alice
       = sum_list (map e_total_amount (filter (\<lambda>e. e_source e = n_id alice) example_edges))
   \<and> n_tx_count alice
       = sum_list (map e_tx_count (filter (\<lambda>e. e_source e = n_id alice) example_edges))
   \<and> main_st \<in> set example_nodes \<and> is_addr main_st
   \<and> n_total_amount main_st
       = sum_list (map e_total_amount (filter (\<lambda>e. e_target e = n_id main_st) example_edges))
   \<and> n_tx_count main_st
       = sum_list (map e_tx_count (filter (\<lambda>e. e_target e = n_id main_st) example_edges))"
proof -
  have run: "build 2 example_records = Inr (example_nodes, example_edges, example_top_shared)"
    by code_simp
  have amounts: "amount_column example_records = Inr [Fin 100, Fin 50, Fin 200]"
    by code_simp
  have exact: "sums_exact [Fin 100, Fin 50, Fin 200]"
    by code_simp
  have types: "\<forall>r1\<in>set (rows example_records). \<forall>r2\<in>set (rows example_records).
      c_name r1 = c_name r2 \<longrightarrow> c_type r1 = c_type r2"
    by code_simp
  have groups: "''group_id'' \<in> set (columns example_records) \<longrightarrow>
      (\<forall>r1\<in>set (rows example_records). \<forall>r2\<in>set (rows example_records).
         c_group_id r1 = c_group_id r2 \<longrightarrow> c_address r1 = c_address r2)"
    by code_simp
  have a: "alice \<in> set example_nodes" "is_person alice"
    by code_simp+
  have m: "main_st \<in> set example_nodes" "is_addr main_st"
    by code_simp+
  from node_totals_consistent[OF run amounts types groups a(1)]
    node_totals_consistent[OF run amounts types groups m(1)] run amounts exact a m
  show ?thesis
    by blast
qed

text \<open>
  With a contributor recorded under two types the node table has two rows of the same
  id, each with the amounts of one type, while the edge of that id carries both.
\<close>

theorem two_types_split_node:
  "case build 2 alice_two_types of
     Inl e \<Rightarrow> False
   | Inr (ns, es, summary) \<Rightarrow>
       is_person (hd ns) \<and> n_id (hd ns) = ''person:0'' \<and> n_total_amount (hd ns) = Fin 100
       \<and> sum_list (map e_total_amount (filter (\<lambda>e. e_source e = n_id (hd ns)) es)) = Fin 150
       \<and> n_tx_count (hd ns) = 1
       \<and> sum_list (map e_tx_count (filter (\<lambda>e. e_source e = n_id (hd ns)) es)) = 2"
  by code_simp

subsection \<open>The filter on the tables of the builder\<close>

text \<open>
  The ids of the builder tell contributors from addresses: an edge points to an id that
  begins with \<^verbatim>\<open>addr:\<close>, a contributor node has an id that begins with \<^verbatim>\<open>person:\<close>.
\<close>

lemma edges_target_row: "e \<in> set (edges sh) \<Longrightarrow> \<exists>r\<in>set sh. e_target e = address_id r"
  by (auto simp: edges_def set_group_keys)

lemma nodes_contrib_row: "v \<in> set (nodes_contrib sh) \<Longrightarrow> \<exists>r\<in>set sh. n_id v = contrib_id r"
  by (auto simp: nodes_contrib_def set_group_keys)

lemma df_shared_ids:
  assumes "s \<in> set (df_shared n recs)"
  shows "\<exists>i j. contrib_id s = ''person:'' @ i \<and> address_id s = ''addr:'' @ j"
  using df_shared_rows[OF assms] by blast

lemma build_bipartite:
  assumes run: "build n df = Inr (ns, es, summary)"
  shows "\<forall>e\<in>set es. \<forall>v\<in>set ns. n_id v = e_target e \<longrightarrow> \<not> is_person v"
proof (intro ballI impI notI)
  fix e v
  assume e: "e \<in> set es" and v: "v \<in> set ns" and same: "n_id v = e_target e"
    and person: "is_person v"
  from run obtain recs where ns: "ns = nodes (df_shared n recs)"
    and es: "es = edges (df_shared n recs)"
    by (cases "load df") (auto simp: build_def)
  let ?sh = "df_shared n recs"
  from v person have "v \<in> set (nodes_contrib ?sh)"
    unfolding ns nodes_def using nodes_addr_type[of v ?sh] by (auto simp: is_person_def)
  then obtain r1 where r1: "r1 \<in> set ?sh" "n_id v = contrib_id r1"
    using nodes_contrib_row by blast
  from e obtain r2 where r2: "r2 \<in> set ?sh" "e_target e = address_id r2"
    unfolding es using edges_target_row by blast
  from df_shared_ids[OF r1(1)] obtain i where "contrib_id r1 = ''person:'' @ i"
    by blast
  moreover from df_shared_ids[OF r2(1)] obtain j where "address_id r2 = ''addr:'' @ j"
    by blast
  ultimately show False
    using same r1(2) r2(2) by simp
qed

text \<open>
  Claim C9. On the node and edge tables of the builder, let the threshold be higher than
  the number of distinct sources of every target of the edge table. Then the filter
  returns, without an error, the contributor nodes that pass the type and the amount
  filters, no address node and no edge.
\<close>

theorem high_threshold_empties:
  assumes run: "build n df = Inr (ns, es, summary)"
    and high: "\<forall>t\<in>set (map e_target es).
                 nunique (map e_source (group_rows e_target es t)) < min_contribs p"
  shows "filter_engine p ns es =
           Inr (filter (\<lambda>n. persons_ok p n
                  \<and> between (n_total_amount n) (fst (sel_amt p)) (snd (sel_amt p))) ns, [])
         \<and> filter is_addr (filter (\<lambda>n. persons_ok p n
                  \<and> between (n_total_amount n) (fst (sel_amt p)) (snd (sel_amt p))) ns) = []"
  using high build_bipartite[OF run] by (rule high_threshold_bipartite)

theorem high_threshold_empties_witness:
  "build 2 example_records = Inr (example_nodes, example_edges, example_top_shared)
   \<and> list_all (\<lambda>t. nunique (map e_source (group_rows e_target example_edges t))
         < min_contribs high_threshold) (map e_target example_edges)
   \<and> filter_engine high_threshold example_nodes example_edges = Inr ([alice, bob], [])
   \<and> filter is_addr [alice, bob] = []"
proof -
  have run: "build 2 example_records = Inr (example_nodes, example_edges, example_top_shared)"
    by code_simp
  have high: "\<forall>t\<in>set (map e_target example_edges).
      nunique (map e_source (group_rows e_target example_edges t)) < min_contribs high_threshold"
    by code_simp
  have sel: "filter (\<lambda>n. persons_ok high_threshold n
      \<and> between (n_total_amount n) (fst (sel_amt high_threshold)) (snd (sel_amt high_threshold)))
      example_nodes = [alice, bob]"
    by code_simp
  from high have "list_all (\<lambda>t. nunique (map e_source (group_rows e_target example_edges t))
         < min_contribs high_threshold) (map e_target example_edges)"
    by (simp only: list_all_iff)
  with high_threshold_empties[OF run high] run show ?thesis
    unfolding sel by blast
qed

end
